theory Spec2Isabelle
  imports Complex_Main
begin

section \<open>Data model (src/App.tsx)\<close>

text \<open>
  \<^verbatim>\<open>type ImageStatus = 'pending' | 'done' | 'error'\<close> and the interface
  \<^verbatim>\<open>GeneratedImage { status; url?; error? }\<close> (App.tsx, lines 26-31). An optional
  property that is not set is \<open>None\<close>. JavaScript numbers are modelled as real numbers
  (the cursor of the slider) and as integers (the time shifts).
\<close>

datatype ImageStatus = Pending | Done | Error

record GeneratedImage =
  status :: ImageStatus
  url :: "string option"
  error :: "string option"

text \<open>
  JavaScript truthiness of a \<^verbatim>\<open>string | null | undefined\<close> value: null, undefined and
  the empty string are falsy.
\<close>

definition truthy :: "string option \<Rightarrow> bool" where
  "truthy v = (case v of None \<Rightarrow> False | Some s \<Rightarrow> s \<noteq> [])"

section \<open>The slider interpolation (src/components/ImageMorpher.tsx)\<close>

text \<open>
  The object literal built by \<^verbatim>\<open>labels.map(label => ({ label, url, status }))\<close>
  (ImageMorpher.tsx, lines 19-23). The optional chaining \<^verbatim>\<open>images[label]?.url\<close> gives
  undefined when the record has no entry for the label.
\<close>

record Slide =
  slideLabel :: string
  slideUrl :: "string option"
  slideStatus :: "ImageStatus option"

definition successfulImages :: "(string \<rightharpoonup> GeneratedImage) \<Rightarrow> string list \<Rightarrow> Slide list" where
  "successfulImages images labels =
     filter (\<lambda>image. slideStatus image = Some Done \<and> truthy (slideUrl image))
       (map (\<lambda>label.
               \<lparr> slideLabel = label,
                 slideUrl = (case images label of None \<Rightarrow> None | Some g \<Rightarrow> url g),
                 slideStatus = (case images label of None \<Rightarrow> None | Some g \<Rightarrow> Some (status g)) \<rparr>)
            labels)"

text \<open>\<^verbatim>\<open>calculateOpacity(index, currentValue)\<close> (ImageMorpher.tsx, lines 27-34).\<close>

definition calculateOpacity :: "real \<Rightarrow> real \<Rightarrow> real" where
  "calculateOpacity index currentValue =
     (let distance = \<bar>currentValue - index\<bar>
      in if distance > 1 then 0 else 1 - distance)"

text \<open>
  The opacities of the rendered images,
  \<^verbatim>\<open>successfulImages.map((image, index) => ... calculateOpacity(index, sliderValue))\<close>
  (lines 53-59), and the \<^verbatim>\<open>max\<close> attribute of the range input (line 71); its
  \<^verbatim>\<open>min\<close> is 0.
\<close>

definition renderedOpacities :: "(string \<rightharpoonup> GeneratedImage) \<Rightarrow> string list \<Rightarrow> real \<Rightarrow> real list" where
  "renderedOpacities images labels sliderValue =
     map (\<lambda>(index, image). calculateOpacity (real index) sliderValue)
         (enumerate 0 (successfulImages images labels))"

definition sliderMax :: "(string \<rightharpoonup> GeneratedImage) \<Rightarrow> string list \<Rightarrow> real" where
  "sliderMax images labels =
     (if length (successfulImages images labels) > 1
      then real (length (successfulImages images labels)) - 1 else 1)"

section \<open>The generation orchestrator (src/App.tsx)\<close>

subsection \<open>Constants\<close>

text \<open>
  Template literals print a number in decimal: \<^verbatim>\<open>`${shift}`\<close> of \<open>-75\<close> is
  \<^verbatim>\<open>-75\<close>.
\<close>

fun digits :: "nat \<Rightarrow> string" where
  "digits n =
     (if n < 10 then [char_of (48 + n)]
      else digits (n div 10) @ [char_of (48 + n mod 10)])"

definition numberToString :: "int \<Rightarrow> string" where
  "numberToString n = (if n < 0 then ''-'' @ digits (nat (- n)) else digits (nat n))"

text \<open>\<^verbatim>\<open>TIME_SHIFTS\<close> and \<^verbatim>\<open>TIME_LABELS\<close> (App.tsx, lines 11-12).\<close>

definition TIME_SHIFTS :: "int list" where
  "TIME_SHIFTS = [-75, -50, -25, 25, 50, 75]"

definition TIME_LABELS :: "string list" where
  "TIME_LABELS =
     map (\<lambda>shift. if shift < 0 then numberToString shift @ '' years''
                  else ''+'' @ numberToString shift @ '' years'')
         TIME_SHIFTS"

text \<open>\<^verbatim>\<open>getTransformPrompt\<close> (App.tsx, line 24).\<close>

definition getTransformPrompt :: "int \<Rightarrow> string" where
  "getTransformPrompt shift =
     ''You are an expert in historical and futuristic photography styles. Using the provided image, which is from the present day, transform it to look like it was taken ''
     @ numberToString \<bar>shift\<bar> @ '' years in the '' @ (if shift < 0 then ''past'' else ''future'')
     @ ''. The entire image, including people, background, objects, fashion, and photographic style (color, grain, quality, aspect ratio) should be modified to convincingly represent that era. Do not add any text or overlays to the image. Ensure the output is a photorealistic image and maintains the core composition of the original.''"

subsection \<open>Component state and its environment\<close>

text \<open>
  The four \<^verbatim>\<open>useState\<close> cells of \<^verbatim>\<open>App\<close> that the orchestrator and the slider
  use (App.tsx, lines 88-91).
\<close>

datatype AppState = select_image | confirm_image | generating | results_shown

record App =
  sourceImage :: "string option"
  generatedImages :: "string \<rightharpoonup> GeneratedImage"
  sliderValue :: real
  appState :: AppState

text \<open>
  What a rejected promise carries: an \<^verbatim>\<open>Error\<close> object with its message, or any other
  value (\<^verbatim>\<open>err instanceof Error\<close> is false).
\<close>

datatype reason = ErrorObject string | NonError

text \<open>
  A promise is pending (\<open>None\<close>) or settled: fulfilled with a value or rejected with a
  reason.
\<close>

datatype 'a settled = Fulfilled 'a | Rejected reason

type_synonym 'a promise = "'a settled option"

text \<open>
  The component state together with what the handlers do to the outside: the calls made
  to \<^verbatim>\<open>transformImageForTimePeriod\<close> (source image and prompt) and the lines written
  with \<^verbatim>\<open>console.error\<close>.
\<close>

record World = App +
  requests :: "(string \<times> string) list"
  console :: "(string \<times> reason) list"

definition initialWorld :: World where
  "initialWorld =
     \<lparr> sourceImage = None, generatedImages = Map.empty, sliderValue = 2,
       appState = select_image, requests = [], console = [] \<rparr>"

text \<open>
  The state setters. \<^verbatim>\<open>setGeneratedImages\<close> is given an updater of the previous value;
  \<^verbatim>\<open>setGeneratedImages(initialImages)\<close> is the constant updater.
\<close>

definition setGeneratedImages ::
  "((string \<rightharpoonup> GeneratedImage) \<Rightarrow> (string \<rightharpoonup> GeneratedImage)) \<Rightarrow> World \<Rightarrow> World" where
  "setGeneratedImages updater w = w\<lparr>generatedImages := updater (generatedImages w)\<rparr>"

definition setAppState :: "AppState \<Rightarrow> World \<Rightarrow> World" where
  "setAppState v w = w\<lparr>appState := v\<rparr>"

definition setSourceImage :: "string option \<Rightarrow> World \<Rightarrow> World" where
  "setSourceImage v w = w\<lparr>sourceImage := v\<rparr>"

definition setSliderValue :: "real \<Rightarrow> World \<Rightarrow> World" where
  "setSliderValue v w = w\<lparr>sliderValue := v\<rparr>"

definition console_error :: "string \<Rightarrow> reason \<Rightarrow> World \<Rightarrow> World" where
  "console_error message err w = w\<lparr>console := console w @ [(message, err)]\<rparr>"

subsection \<open>Promise combinators\<close>

text \<open>
  \<^verbatim>\<open>p.then(onFulfilled)\<close> and \<^verbatim>\<open>p.catch(onRejected)\<close> at the moment \<open>p\<close> settles.
  The handlers of this program return nothing and do not throw, so the derived promise
  is fulfilled with undefined once its handler has run; a promise that skips its handler
  passes its own state on.
\<close>

definition promise_then ::
  "'a settled \<Rightarrow> ('a \<Rightarrow> World \<Rightarrow> World) \<Rightarrow> World \<Rightarrow> unit settled \<times> World" where
  "promise_then p onFulfilled w =
     (case p of
        Fulfilled v \<Rightarrow> (Fulfilled (), onFulfilled v w)
      | Rejected r \<Rightarrow> (Rejected r, w))"

definition promise_catch ::
  "unit settled \<times> World \<Rightarrow> (reason \<Rightarrow> World \<Rightarrow> World) \<Rightarrow> unit settled \<times> World" where
  "promise_catch pw onRejected =
     (case pw of
        (Fulfilled v, w) \<Rightarrow> (Fulfilled v, w)
      | (Rejected r, w) \<Rightarrow> (Fulfilled (), onRejected r w))"

text \<open>
  \<^verbatim>\<open>Promise.allSettled(ps)\<close>: pending while one of \<open>ps\<close> is pending, then fulfilled
  with the list of the settled states. It never rejects.
\<close>

definition allSettled :: "'a promise list \<Rightarrow> ('a settled list) promise" where
  "allSettled ps = (if None \<in> set ps then None else Some (Fulfilled (map the ps)))"

subsection \<open>handleGenerateClick\<close>

text \<open>
  \<^verbatim>\<open>initialImages\<close> (App.tsx, lines 157-160): every label is set to
  \<^verbatim>\<open>{ status: 'pending' }\<close>, in the order of \<^verbatim>\<open>TIME_LABELS\<close>.
\<close>

definition initialImages :: "string \<rightharpoonup> GeneratedImage" where
  "initialImages =
     foldl (\<lambda>m label. m(label \<mapsto> \<lparr> status = Pending, url = None, error = None \<rparr>))
           Map.empty TIME_LABELS"

text \<open>
  One element of \<^verbatim>\<open>generationPromises\<close> at the moment the call to
  \<^verbatim>\<open>transformImageForTimePeriod\<close> settles with \<open>outcome\<close> (App.tsx, lines 167-181):
  the \<^verbatim>\<open>.then\<close> handler, then the \<^verbatim>\<open>.catch\<close> handler.
\<close>

definition settleGeneration :: "string \<Rightarrow> string settled \<Rightarrow> World \<Rightarrow> unit settled \<times> World" where
  "settleGeneration label outcome w =
     promise_catch
       (promise_then outcome
          (\<lambda>newImageUrl.
             setGeneratedImages
               (\<lambda>prev. prev(label \<mapsto> \<lparr> status = Done, url = Some newImageUrl, error = None \<rparr>)))
          w)
       (\<lambda>err w'.
          let w'' = console_error (''Failed to generate image for '' @ label @ '':'') err w';
              errorMessage = (case err of ErrorObject message \<Rightarrow> message
                                        | NonError \<Rightarrow> ''Generation failed.'')
          in setGeneratedImages
               (\<lambda>prev. prev(label \<mapsto> \<lparr> status = Error, url = None, error = Some errorMessage \<rparr>))
               w'')"

text \<open>
  The event loop while \<^verbatim>\<open>handleGenerateClick\<close> awaits. \<open>schedule\<close> lists, in the order
  of their arrival, the task indices whose call to the generation service settles;
  \<open>outcome k\<close> is how the call of task \<open>k\<close> settles. A promise settles once: a task that
  has already settled, or an index that names no task, is skipped.
\<close>

fun deliver ::
  "(nat \<Rightarrow> string settled) \<Rightarrow> nat list \<Rightarrow> unit promise list \<times> World \<Rightarrow> unit promise list \<times> World" where
  "deliver outcome [] (ps, w) = (ps, w)"
| "deliver outcome (k # ks) (ps, w) =
     (if k < length ps \<and> ps ! k = None
      then (case settleGeneration (TIME_LABELS ! k) (outcome k) w of
              (r, w') \<Rightarrow> deliver outcome ks (ps[k := Some r], w'))
      else deliver outcome ks (ps, w))"

text \<open>
  The result of a call of the handler: the world it leaves, the state of each of its
  \<^verbatim>\<open>generationPromises\<close>, and the state of the promise the async function returned
  (\<open>None\<close>: it is still suspended at its \<^verbatim>\<open>await\<close>).
\<close>

record Run =
  world :: World
  generationPromises :: "unit promise list"
  returned :: "unit promise"

text \<open>
  \<^verbatim>\<open>handleGenerateClick\<close> (App.tsx, lines 152-187), observed after the service calls
  listed in \<open>schedule\<close> have settled. An \<^verbatim>\<open>await\<close> on a rejected promise throws, which
  rejects the promise of the async function.
\<close>

definition handleGenerateClick :: "(nat \<Rightarrow> string settled) \<Rightarrow> nat list \<Rightarrow> World \<Rightarrow> Run" where
  "handleGenerateClick outcome schedule w =
     (if \<not> truthy (sourceImage w)
      then \<lparr> world = w, generationPromises = [], returned = Some (Fulfilled ()) \<rparr>
      else
        let source = the (sourceImage w);
            w1 = setAppState generating w;
            w2 = setGeneratedImages (\<lambda>_. initialImages) w1;
            w3 = w2\<lparr>requests := requests w2
                       @ map (\<lambda>shift. (source, getTransformPrompt shift)) TIME_SHIFTS\<rparr>
        in case deliver outcome schedule (map (\<lambda>shift. None) TIME_SHIFTS, w3) of
             (ps, w4) \<Rightarrow>
               (case allSettled ps of
                  None \<Rightarrow> \<lparr> world = w4, generationPromises = ps, returned = None \<rparr>
                | Some (Rejected r) \<Rightarrow>
                    \<lparr> world = w4, generationPromises = ps, returned = Some (Rejected r) \<rparr>
                | Some (Fulfilled results) \<Rightarrow>
                    \<lparr> world = setAppState results_shown w4, generationPromises = ps,
                      returned = Some (Fulfilled ()) \<rparr>))"

subsection \<open>The other handlers and the component as a state machine\<close>

text \<open>\<^verbatim>\<open>handleReset\<close> (App.tsx, lines 189-194).\<close>

definition handleReset :: "World \<Rightarrow> World" where
  "handleReset w =
     setSliderValue 2 (setAppState select_image (setGeneratedImages (\<lambda>_. Map.empty)
       (setSourceImage None w)))"

text \<open>
  The events that change the state: a source image arrives (the successful end of
  \<^verbatim>\<open>handleFileChange\<close> or \<^verbatim>\<open>handleCapture\<close>), the Generate button (with the way the
  service answers during that run), the Back and Start Over buttons, and the slider.
  Events are accepted in every state, which covers every sequence the rendered buttons
  allow.
\<close>

datatype event =
    ImageChosen string
  | GenerateClick "nat \<Rightarrow> string settled" "nat list"
  | ResetClick
  | SliderChange real

fun handle :: "World \<Rightarrow> event \<Rightarrow> World" where
  "handle w (ImageChosen dataUrl) = setAppState confirm_image (setSourceImage (Some dataUrl) w)"
| "handle w (GenerateClick outcome schedule) = world (handleGenerateClick outcome schedule w)"
| "handle w ResetClick = handleReset w"
| "handle w (SliderChange v) = setSliderValue v w"

definition run_events :: "event list \<Rightarrow> World" where
  "run_events evs = foldl handle initialWorld evs"

section \<open>Properties stated by the claims\<close>

text \<open>The item invariant of the data model, as a predicate on one entry.\<close>

definition itemInvariant :: "GeneratedImage \<Rightarrow> bool" where
  "itemInvariant g =
     ((status g = Pending \<longrightarrow> url g = None \<and> error g = None)
    \<and> (status g \<noteq> Pending \<longrightarrow> (url g \<noteq> None) \<noteq> (error g \<noteq> None))
    \<and> ((url g \<noteq> None) = (status g = Done))
    \<and> ((error g \<noteq> None) = (status g = Error)))"

text \<open>The entry a settled service call leaves for its label.\<close>

definition entryOf :: "string settled \<Rightarrow> GeneratedImage" where
  "entryOf outcome =
     (case outcome of
        Fulfilled newImageUrl \<Rightarrow> \<lparr> status = Done, url = Some newImageUrl, error = None \<rparr>
      | Rejected (ErrorObject message) \<Rightarrow> \<lparr> status = Error, url = None, error = Some message \<rparr>
      | Rejected NonError \<Rightarrow> \<lparr> status = Error, url = None, error = Some ''Generation failed.'' \<rparr>)"

text \<open>The entry every label has when the batch starts.\<close>

definition pendingEntry :: GeneratedImage where
  "pendingEntry = \<lparr> status = Pending, url = None, error = None \<rparr>"

text \<open>
  The successful-items sequence in the words of the specification: the label sequence
  restricted to the labels whose status is done.
\<close>

definition doneLabels :: "(string \<rightharpoonup> GeneratedImage) \<Rightarrow> string list \<Rightarrow> string list" where
  "doneLabels images labels =
     filter (\<lambda>label. case images label of None \<Rightarrow> False | Some g \<Rightarrow> status g = Done) labels"

text \<open>
  A call reports a failure to its caller when the promise it returned is rejected, or
  when it has written to the console.
\<close>

definition failureReported :: "World \<Rightarrow> Run \<Rightarrow> bool" where
  "failureReported before run =
     ((case returned run of Some (Rejected r) \<Rightarrow> True | _ \<Rightarrow> False)
      \<or> console (world run) \<noteq> console before)"

subsection \<open>Example inputs\<close>

text \<open>
  A world in which a photo has been chosen, and four ways the generation service may
  answer: tasks 1 and 4 fail, every task fails, task 0 resolves with the empty string, and
  only task 2 succeeds.
\<close>

definition photoChosen :: World where
  "photoChosen = handle initialWorld (ImageChosen ''data:image/jpeg;base64,AA=='')"

definition twoFail :: "nat \<Rightarrow> string settled" where
  "twoFail k = (if k = 1 \<or> k = 4 then Rejected (ErrorObject ''quota exceeded'')
                else Fulfilled ''data:image/png;base64,BB=='')"

definition allFail :: "nat \<Rightarrow> string settled" where
  "allFail k = (if k = 0 then Rejected NonError else Rejected (ErrorObject ''network error''))"

definition emptyFirst :: "nat \<Rightarrow> string settled" where
  "emptyFirst k = (if k = 0 then Fulfilled [] else Fulfilled ''data:image/png;base64,BB=='')"

definition oneSucceeds :: "nat \<Rightarrow> string settled" where
  "oneSucceeds k = (if k = 2 then Fulfilled ''data:image/png;base64,CC==''
                    else Rejected (ErrorObject ''network error''))"

text \<open>
  Two orders in which the six service calls may settle, and the batch mappings left by
  the run with two failures and by the run with a single success once every call has
  settled.
\<close>

definition arrivalOrder :: "nat list" where
  "arrivalOrder = [3, 1, 5, 0, 4, 2]"

definition reverseOrder :: "nat list" where
  "reverseOrder = [5, 4, 3, 2, 1, 0]"

definition twoFailImages :: "string \<rightharpoonup> GeneratedImage" where
  "twoFailImages = generatedImages (world (handleGenerateClick twoFail arrivalOrder photoChosen))"

definition oneSucceedsImages :: "string \<rightharpoonup> GeneratedImage" where
  "oneSucceedsImages =
     generatedImages (world (handleGenerateClick oneSucceeds reverseOrder photoChosen))"

section \<open>Auxiliary facts\<close>

declare digits.simps [simp del]

lemma TIME_LABELS_eq:
  "TIME_LABELS = [''-75 years'', ''-50 years'', ''-25 years'', ''+25 years'', ''+50 years'', ''+75 years'']"
  by code_simp

lemma distinct_TIME_LABELS: "distinct TIME_LABELS"
  by (simp add: TIME_LABELS_eq)

lemma length_TIME_LABELS: "length TIME_LABELS = 6"
  by (simp add: TIME_LABELS_eq)

lemma length_TIME_SHIFTS: "length TIME_SHIFTS = 6"
  by (simp add: TIME_SHIFTS_def)

lemma TIME_LABELS_inj:
  "j < 6 \<Longrightarrow> k < 6 \<Longrightarrow> (TIME_LABELS ! j = TIME_LABELS ! k) = (j = k)"
  using distinct_TIME_LABELS by (simp add: nth_eq_iff_index_eq length_TIME_LABELS)

lemma foldl_upd:
  "foldl (\<lambda>m l. m(l \<mapsto> v)) m0 ls l' = (if l' \<in> set ls then Some v else m0 l')"
  by (induction ls arbitrary: m0) auto

lemma initialImages_apply:
  "initialImages l = (if l \<in> set TIME_LABELS then Some pendingEntry else None)"
  by (simp add: initialImages_def foldl_upd pendingEntry_def)

lemma settleGeneration_eq:
  "settleGeneration label outcome w =
     (Fulfilled (),
      (case outcome of
         Fulfilled u \<Rightarrow> w
       | Rejected r \<Rightarrow> w\<lparr>console := console w @ [(''Failed to generate image for '' @ label @ '':'', r)]\<rparr>)
      \<lparr>generatedImages := (generatedImages w)(label \<mapsto> entryOf outcome)\<rparr>)"
  by (cases outcome; cases "case outcome of Rejected r \<Rightarrow> r | _ \<Rightarrow> NonError")
     (simp_all add: settleGeneration_def promise_then_def promise_catch_def entryOf_def
        setGeneratedImages_def console_error_def Let_def)

lemma settleGeneration_fst: "fst (settleGeneration label outcome w) = Fulfilled ()"
  by (simp add: settleGeneration_eq)

lemma settleGeneration_images:
  "generatedImages (snd (settleGeneration label outcome w)) =
     (generatedImages w)(label \<mapsto> entryOf outcome)"
  by (cases outcome) (simp_all add: settleGeneration_eq)

lemma settleGeneration_frame:
  "sourceImage (snd (settleGeneration label outcome w)) = sourceImage w
 \<and> appState (snd (settleGeneration label outcome w)) = appState w
 \<and> sliderValue (snd (settleGeneration label outcome w)) = sliderValue w
 \<and> requests (snd (settleGeneration label outcome w)) = requests w"
  by (cases outcome) (simp_all add: settleGeneration_eq)

lemma deliver_frame:
  "deliver outcome sched (ps, w) = (ps', w') \<Longrightarrow>
     length ps' = length ps \<and> sourceImage w' = sourceImage w \<and> appState w' = appState w
     \<and> sliderValue w' = sliderValue w \<and> requests w' = requests w"
proof (induction sched arbitrary: ps w)
  case Nil
  then show ?case by simp
next
  case (Cons k ks)
  show ?case
  proof (cases "k < length ps \<and> ps ! k = None")
    case True
    obtain r w1 where s: "settleGeneration (TIME_LABELS ! k) (outcome k) w = (r, w1)"
      by (cases "settleGeneration (TIME_LABELS ! k) (outcome k) w")
    from Cons.prems True s have "deliver outcome ks (ps[k := Some r], w1) = (ps', w')"
      by simp
    from Cons.IH [OF this] settleGeneration_frame [of "TIME_LABELS ! k" "outcome k" w] s
    show ?thesis by simp
  next
    case False
    with Cons.prems have "deliver outcome ks (ps, w) = (ps', w')" by auto
    from Cons.IH [OF this] show ?thesis .
  qed
qed

lemma deliver_promises:
  "deliver outcome sched (ps, w) = (ps', w') \<Longrightarrow> k < length ps \<Longrightarrow>
     ps' ! k = (if ps ! k = None \<and> k \<in> set sched then Some (Fulfilled ()) else ps ! k)"
proof (induction sched arbitrary: ps w)
  case Nil
  then show ?case by simp
next
  case (Cons j js)
  show ?case
  proof (cases "j < length ps \<and> ps ! j = None")
    case True
    obtain r w1 where s: "settleGeneration (TIME_LABELS ! j) (outcome j) w = (r, w1)"
      by (cases "settleGeneration (TIME_LABELS ! j) (outcome j) w")
    have r: "r = Fulfilled ()"
      using settleGeneration_fst [of "TIME_LABELS ! j" "outcome j" w] s by simp
    from Cons.prems True s have d: "deliver outcome js (ps[j := Some r], w1) = (ps', w')"
      by simp
    from Cons.IH [OF d] Cons.prems(2) True r show ?thesis
      by (cases "k = j") auto
  next
    case False
    with Cons.prems have d: "deliver outcome js (ps, w) = (ps', w')" by auto
    from Cons.IH [OF d Cons.prems(2)] False Cons.prems(2) show ?thesis
      by auto
  qed
qed

lemma deliver_images:
  "deliver outcome sched (ps, w) = (ps', w') \<Longrightarrow> length ps = 6 \<Longrightarrow> k < 6 \<Longrightarrow>
     generatedImages w' (TIME_LABELS ! k) =
       (if ps ! k = None \<and> k \<in> set sched then Some (entryOf (outcome k))
        else generatedImages w (TIME_LABELS ! k))"
proof (induction sched arbitrary: ps w)
  case Nil
  then show ?case by simp
next
  case (Cons j js)
  show ?case
  proof (cases "j < length ps \<and> ps ! j = None")
    case True
    obtain r w1 where s: "settleGeneration (TIME_LABELS ! j) (outcome j) w = (r, w1)"
      by (cases "settleGeneration (TIME_LABELS ! j) (outcome j) w")
    have w1: "generatedImages w1 = (generatedImages w)(TIME_LABELS ! j \<mapsto> entryOf (outcome j))"
      using settleGeneration_images [of "TIME_LABELS ! j" "outcome j" w] s by simp
    from Cons.prems True s have d: "deliver outcome js (ps[j := Some r], w1) = (ps', w')"
      by simp
    have len: "length (ps[j := Some r]) = 6" using Cons.prems(2) by simp
    have j6: "j < 6" using True Cons.prems(2) by simp
    show ?thesis
    proof (cases "k = j")
      case True
      with Cons.IH [OF d len Cons.prems(3)] w1 j6 Cons.prems(2) \<open>j < length ps \<and> ps ! j = None\<close>
      show ?thesis by simp
    next
      case False
      with Cons.IH [OF d len Cons.prems(3)] w1 j6 Cons.prems(2,3) TIME_LABELS_inj [of k j]
      show ?thesis by simp
    qed
  next
    case False
    with Cons.prems have d: "deliver outcome js (ps, w) = (ps', w')" by auto
    from Cons.IH [OF d Cons.prems(2,3)] False Cons.prems(2,3) show ?thesis
      by auto
  qed
qed

lemma deliver_other_labels:
  "deliver outcome sched (ps, w) = (ps', w') \<Longrightarrow> length ps = 6 \<Longrightarrow> l \<notin> set TIME_LABELS \<Longrightarrow>
     generatedImages w' l = generatedImages w l"
proof (induction sched arbitrary: ps w)
  case Nil
  then show ?case by simp
next
  case (Cons j js)
  show ?case
  proof (cases "j < length ps \<and> ps ! j = None")
    case True
    obtain r w1 where s: "settleGeneration (TIME_LABELS ! j) (outcome j) w = (r, w1)"
      by (cases "settleGeneration (TIME_LABELS ! j) (outcome j) w")
    have w1: "generatedImages w1 = (generatedImages w)(TIME_LABELS ! j \<mapsto> entryOf (outcome j))"
      using settleGeneration_images [of "TIME_LABELS ! j" "outcome j" w] s by simp
    from Cons.prems True s have d: "deliver outcome js (ps[j := Some r], w1) = (ps', w')"
      by simp
    have len: "length (ps[j := Some r]) = 6" using Cons.prems(2) by simp
    have "TIME_LABELS ! j \<in> set TIME_LABELS"
      using True Cons.prems(2) by (simp add: length_TIME_LABELS)
    with Cons.prems(3) have "l \<noteq> TIME_LABELS ! j" by auto
    with Cons.IH [OF d len Cons.prems(3)] w1 show ?thesis by simp
  next
    case False
    with Cons.prems have d: "deliver outcome js (ps, w) = (ps', w')" by auto
    from Cons.IH [OF d Cons.prems(2,3)] show ?thesis .
  qed
qed

lemma handleGenerateClick_unfold:
  assumes t: "truthy (sourceImage w)"
    and d: "deliver outcome schedule
              (map (\<lambda>shift. None) TIME_SHIFTS,
               (setGeneratedImages (\<lambda>_. initialImages) (setAppState generating w))
                 \<lparr>requests := requests w
                    @ map (\<lambda>shift. (the (sourceImage w), getTransformPrompt shift)) TIME_SHIFTS\<rparr>)
            = (ps, w4)"
  shows "handleGenerateClick outcome schedule w =
           (if None \<in> set ps
            then \<lparr> world = w4, generationPromises = ps, returned = None \<rparr>
            else \<lparr> world = setAppState results_shown w4, generationPromises = ps,
                   returned = Some (Fulfilled ()) \<rparr>)"
proof -
  have r: "requests (setGeneratedImages (\<lambda>_. initialImages) (setAppState generating w)) = requests w"
    by (simp add: setGeneratedImages_def setAppState_def)
  show ?thesis
    using t d unfolding handleGenerateClick_def Let_def r
    by (simp add: allSettled_def)
qed

lemma run_facts:
  assumes t: "truthy (sourceImage w)"
  shows "length (generationPromises (handleGenerateClick outcome schedule w)) = 6"
    and "\<And>k. k < 6 \<Longrightarrow> generationPromises (handleGenerateClick outcome schedule w) ! k =
           (if k \<in> set schedule then Some (Fulfilled ()) else None)"
    and "returned (handleGenerateClick outcome schedule w) =
           (if \<forall>k<6. k \<in> set schedule then Some (Fulfilled ()) else None)"
    and "\<And>k. k < 6 \<Longrightarrow>
           generatedImages (world (handleGenerateClick outcome schedule w)) (TIME_LABELS ! k) =
             Some (if k \<in> set schedule then entryOf (outcome k) else pendingEntry)"
    and "\<And>l. l \<notin> set TIME_LABELS \<Longrightarrow>
           generatedImages (world (handleGenerateClick outcome schedule w)) l = None"
    and "requests (world (handleGenerateClick outcome schedule w)) =
           requests w @ map (\<lambda>shift. (the (sourceImage w), getTransformPrompt shift)) TIME_SHIFTS"
    and "appState (world (handleGenerateClick outcome schedule w)) =
           (if \<forall>k<6. k \<in> set schedule then results_shown else generating)"
    and "sourceImage (world (handleGenerateClick outcome schedule w)) = sourceImage w"
    and "sliderValue (world (handleGenerateClick outcome schedule w)) = sliderValue w"
proof -
  define w3 where "w3 = (setGeneratedImages (\<lambda>_. initialImages) (setAppState generating w))
                 \<lparr>requests := requests w
                    @ map (\<lambda>shift. (the (sourceImage w), getTransformPrompt shift)) TIME_SHIFTS\<rparr>"
  define ps0 :: "unit promise list" where "ps0 = map (\<lambda>shift. None) TIME_SHIFTS"
  obtain ps w4 where d: "deliver outcome schedule (ps0, w3) = (ps, w4)"
    by (cases "deliver outcome schedule (ps0, w3)")
  have len0: "length ps0 = 6" by (simp add: ps0_def length_TIME_SHIFTS)
  have ps0_nth: "\<And>k. k < 6 \<Longrightarrow> ps0 ! k = None"
    by (simp add: ps0_def length_TIME_SHIFTS)
  have w3_fields: "generatedImages w3 = initialImages" "appState w3 = generating"
    "sourceImage w3 = sourceImage w" "sliderValue w3 = sliderValue w"
    "requests w3 = requests w @ map (\<lambda>shift. (the (sourceImage w), getTransformPrompt shift)) TIME_SHIFTS"
    by (simp_all add: w3_def setGeneratedImages_def setAppState_def)
  have run: "handleGenerateClick outcome schedule w =
           (if None \<in> set ps
            then \<lparr> world = w4, generationPromises = ps, returned = None \<rparr>
            else \<lparr> world = setAppState results_shown w4, generationPromises = ps,
                   returned = Some (Fulfilled ()) \<rparr>)"
    using handleGenerateClick_unfold [OF t] d unfolding w3_def ps0_def by blast
  have fr: "length ps = 6" "sourceImage w4 = sourceImage w3" "appState w4 = appState w3"
    "sliderValue w4 = sliderValue w3" "requests w4 = requests w3"
    using deliver_frame [OF d] len0 by simp_all
  have ps_nth: "\<And>k. k < 6 \<Longrightarrow> ps ! k = (if k \<in> set schedule then Some (Fulfilled ()) else None)"
    using deliver_promises [OF d] len0 ps0_nth by simp
  have none: "(None \<in> set ps) = (\<not> (\<forall>k<6. k \<in> set schedule))"
  proof
    assume "None \<in> set ps"
    then obtain k where "k < length ps" "ps ! k = None" by (auto simp: in_set_conv_nth)
    with fr(1) ps_nth [of k] show "\<not> (\<forall>k<6. k \<in> set schedule)"
      by (auto split: if_splits)
  next
    assume "\<not> (\<forall>k<6. k \<in> set schedule)"
    then obtain k where k: "k < 6" "k \<notin> set schedule" by auto
    with ps_nth [of k] have "ps ! k = None" by simp
    with k(1) fr(1) show "None \<in> set ps" by (metis nth_mem)
  qed
  have imgs: "\<And>k. k < 6 \<Longrightarrow> generatedImages w4 (TIME_LABELS ! k) =
             Some (if k \<in> set schedule then entryOf (outcome k) else pendingEntry)"
    using deliver_images [OF d len0] ps0_nth w3_fields(1)
    by (simp add: initialImages_apply length_TIME_LABELS)
  have other: "\<And>l. l \<notin> set TIME_LABELS \<Longrightarrow> generatedImages w4 l = None"
    using deliver_other_labels [OF d len0] w3_fields(1) by (simp add: initialImages_apply)
  show "length (generationPromises (handleGenerateClick outcome schedule w)) = 6"
    using run fr(1) by simp
  show "\<And>k. k < 6 \<Longrightarrow> generationPromises (handleGenerateClick outcome schedule w) ! k =
           (if k \<in> set schedule then Some (Fulfilled ()) else None)"
    using run ps_nth by simp
  show "returned (handleGenerateClick outcome schedule w) =
           (if \<forall>k<6. k \<in> set schedule then Some (Fulfilled ()) else None)"
    using run none by simp
  show "\<And>k. k < 6 \<Longrightarrow>
           generatedImages (world (handleGenerateClick outcome schedule w)) (TIME_LABELS ! k) =
             Some (if k \<in> set schedule then entryOf (outcome k) else pendingEntry)"
    using run imgs by (simp add: setAppState_def)
  show "\<And>l. l \<notin> set TIME_LABELS \<Longrightarrow>
           generatedImages (world (handleGenerateClick outcome schedule w)) l = None"
    using run other by (simp add: setAppState_def)
  show "requests (world (handleGenerateClick outcome schedule w)) =
           requests w @ map (\<lambda>shift. (the (sourceImage w), getTransformPrompt shift)) TIME_SHIFTS"
    using run fr(5) w3_fields(5) by (simp add: setAppState_def)
  show "appState (world (handleGenerateClick outcome schedule w)) =
           (if \<forall>k<6. k \<in> set schedule then results_shown else generating)"
    using run none fr(3) w3_fields(2) by (simp add: setAppState_def)
  show "sourceImage (world (handleGenerateClick outcome schedule w)) = sourceImage w"
    using run fr(2) w3_fields(3) by (simp add: setAppState_def)
  show "sliderValue (world (handleGenerateClick outcome schedule w)) = sliderValue w"
    using run fr(4) w3_fields(4) by (simp add: setAppState_def)
qed

lemma no_source:
  "\<not> truthy (sourceImage w) \<Longrightarrow>
     handleGenerateClick outcome schedule w =
       \<lparr> world = w, generationPromises = [], returned = Some (Fulfilled ()) \<rparr>"
  by (simp add: handleGenerateClick_def)

lemma photoChosen_source: "truthy (sourceImage photoChosen)"
  by (simp add: photoChosen_def setAppState_def setSourceImage_def truthy_def)

lemma in_TIME_LABELS: "l \<in> set TIME_LABELS \<Longrightarrow> \<exists>k<6. l = TIME_LABELS ! k"
  by (metis in_set_conv_nth length_TIME_LABELS)

lemma entryOf_status: "status (entryOf outcome) = Done \<or> status (entryOf outcome) = Error"
  by (simp add: entryOf_def split: settled.splits reason.splits)

lemma run_images_literal:
  assumes "truthy (sourceImage w)"
  shows "generatedImages (world (handleGenerateClick outcome schedule w)) ''-75 years'' =
           Some (if 0 \<in> set schedule then entryOf (outcome 0) else pendingEntry)"
    and "generatedImages (world (handleGenerateClick outcome schedule w)) ''-50 years'' =
           Some (if 1 \<in> set schedule then entryOf (outcome 1) else pendingEntry)"
    and "generatedImages (world (handleGenerateClick outcome schedule w)) ''-25 years'' =
           Some (if 2 \<in> set schedule then entryOf (outcome 2) else pendingEntry)"
    and "generatedImages (world (handleGenerateClick outcome schedule w)) ''+25 years'' =
           Some (if 3 \<in> set schedule then entryOf (outcome 3) else pendingEntry)"
    and "generatedImages (world (handleGenerateClick outcome schedule w)) ''+50 years'' =
           Some (if 4 \<in> set schedule then entryOf (outcome 4) else pendingEntry)"
    and "generatedImages (world (handleGenerateClick outcome schedule w)) ''+75 years'' =
           Some (if 5 \<in> set schedule then entryOf (outcome 5) else pendingEntry)"
  using run_facts(4) [OF assms, of 0 outcome schedule] run_facts(4) [OF assms, of 1 outcome schedule]
    run_facts(4) [OF assms, of 2 outcome schedule] run_facts(4) [OF assms, of 3 outcome schedule]
    run_facts(4) [OF assms, of 4 outcome schedule] run_facts(4) [OF assms, of 5 outcome schedule]
  by (simp_all add: TIME_LABELS_eq)

lemmas example_eval = successfulImages_def TIME_LABELS_eq entryOf_def truthy_def pendingEntry_def

lemma twoFail_labels:
  "map slideLabel (successfulImages twoFailImages TIME_LABELS) = [''-75 years'', ''-25 years'', ''+25 years'', ''+75 years'']"
  by (simp add: example_eval run_images_literal [OF photoChosen_source] twoFail_def twoFailImages_def arrivalOrder_def)

lemma oneSucceeds_labels:
  "map slideLabel (successfulImages oneSucceedsImages TIME_LABELS) = [''-25 years'']"
  by (simp add: example_eval run_images_literal [OF photoChosen_source] oneSucceeds_def oneSucceedsImages_def reverseOrder_def)

lemma twoFail_length:
  "length (successfulImages twoFailImages TIME_LABELS) = 4"
  using arg_cong [OF twoFail_labels, of length] by simp

lemma oneSucceeds_length:
  "length (successfulImages oneSucceedsImages TIME_LABELS) = 1"
  using arg_cong [OF oneSucceeds_labels, of length] by simp

lemma renderedOpacities_length:
  "length (renderedOpacities images labels c) = length (successfulImages images labels)"
  by (simp add: renderedOpacities_def)

lemma renderedOpacities_nth:
  "i < length (successfulImages images labels) \<Longrightarrow>
     renderedOpacities images labels c ! i = calculateOpacity (real i) c"
  by (simp add: renderedOpacities_def nth_enumerate_eq)

lemma arrivalOrder_complete: "\<forall>k<6. k \<in> set arrivalOrder"
  by (simp add: arrivalOrder_def less_Suc_eq numeral_eq_Suc)

lemma reverseOrder_complete: "\<forall>k<6. k \<in> set reverseOrder"
  by (simp add: reverseOrder_def less_Suc_eq numeral_eq_Suc)

lemma successfulImages_labels:
  "map slideLabel (successfulImages images labels) =
     filter (\<lambda>label. case images label of None \<Rightarrow> False
                      | Some g \<Rightarrow> status g = Done \<and> truthy (url g)) labels"
  by (induction labels) (auto simp: successfulImages_def truthy_def split: option.splits)

lemma successfulImages_cong:
  "(\<And>l. l \<in> set labels \<Longrightarrow> images l = images' l) \<Longrightarrow>
     successfulImages images labels = successfulImages images' labels"
  by (induction labels) (simp_all add: successfulImages_def)

lemma itemInvariant_entryOf: "itemInvariant (entryOf outcome)"
  by (simp add: itemInvariant_def entryOf_def split: settled.splits reason.splits)

lemma itemInvariant_pendingEntry: "itemInvariant pendingEntry"
  by (simp add: itemInvariant_def pendingEntry_def)

lemma itemInvariant_generate:
  assumes "\<forall>l g. generatedImages w l = Some g \<longrightarrow> itemInvariant g"
  shows "\<forall>l g. generatedImages (world (handleGenerateClick outcome schedule w)) l = Some g
           \<longrightarrow> itemInvariant g"
proof (cases "truthy (sourceImage w)")
  case False
  with assms show ?thesis by (simp add: no_source)
next
  case True
  show ?thesis
  proof (intro allI impI)
    fix l g
    assume g: "generatedImages (world (handleGenerateClick outcome schedule w)) l = Some g"
    with run_facts(5) [OF True, of l outcome schedule] have "l \<in> set TIME_LABELS" by auto
    then obtain k where k: "k < 6" "l = TIME_LABELS ! k" using in_TIME_LABELS by blast
    with g run_facts(4) [OF True k(1), of outcome schedule]
    show "itemInvariant g"
      by (auto simp: itemInvariant_entryOf itemInvariant_pendingEntry split: if_splits)
  qed
qed

lemma itemInvariant_handle:
  assumes "\<forall>l g. generatedImages w l = Some g \<longrightarrow> itemInvariant g"
  shows "\<forall>l g. generatedImages (handle w ev) l = Some g \<longrightarrow> itemInvariant g"
proof (cases ev)
  case (GenerateClick outcome schedule)
  with itemInvariant_generate [OF assms, of outcome schedule] show ?thesis by simp
qed (use assms in \<open>simp_all add: handleReset_def setSliderValue_def setAppState_def
       setGeneratedImages_def setSourceImage_def\<close>)

lemma itemInvariant_foldl:
  "\<forall>l g. generatedImages w l = Some g \<longrightarrow> itemInvariant g \<Longrightarrow>
   \<forall>l g. generatedImages (foldl handle w evs) l = Some g \<longrightarrow> itemInvariant g"
proof (induction evs arbitrary: w)
  case Nil
  then show ?case by simp
next
  case (Cons ev evs)
  from Cons.IH [OF itemInvariant_handle [OF Cons.prems, of ev]] show ?case by simp
qed

lemma itemInvariant_run_events:
  "\<forall>l g. generatedImages (run_events evs) l = Some g \<longrightarrow> itemInvariant g"
  unfolding run_events_def
  by (rule itemInvariant_foldl) (simp add: initialWorld_def)

section \<open>The claims\<close>

text \<open>
  Claim C1 (terminality). For every batch run, that is a call of the handler with a
  source image, once the call has resolved the batch mapping holds exactly the fixed labels
  and every label has status done or error: none is still pending.
\<close>

theorem C1_terminality:
  assumes "truthy (sourceImage w)"
    and "returned (handleGenerateClick outcome schedule w) = Some (Fulfilled ())"
  shows "dom (generatedImages (world (handleGenerateClick outcome schedule w))) = set TIME_LABELS
       \<and> (\<forall>label \<in> set TIME_LABELS. \<exists>g.
            generatedImages (world (handleGenerateClick outcome schedule w)) label = Some g
            \<and> (status g = Done \<or> status g = Error))"
proof -
  let ?imgs = "generatedImages (world (handleGenerateClick outcome schedule w))"
  from assms(2) have all: "\<forall>k<6. k \<in> set schedule"
    by (simp add: run_facts(3) [OF assms(1)] split: if_splits)
  have entries: "\<exists>g. ?imgs label = Some g \<and> (status g = Done \<or> status g = Error)"
    if "label \<in> set TIME_LABELS" for label
  proof -
    from that obtain k where k: "k < 6" "label = TIME_LABELS ! k"
      using in_TIME_LABELS by blast
    with all run_facts(4) [OF assms(1) k(1), of outcome schedule] entryOf_status [of "outcome k"]
    show ?thesis by simp
  qed
  have "dom ?imgs = set TIME_LABELS"
  proof
    show "dom ?imgs \<subseteq> set TIME_LABELS"
    proof
      fix l assume "l \<in> dom ?imgs"
      then have "?imgs l \<noteq> None" by (simp add: dom_def)
      with run_facts(5) [OF assms(1), of l outcome schedule]
      show "l \<in> set TIME_LABELS" by blast
    qed
    show "set TIME_LABELS \<subseteq> dom ?imgs"
      using entries by (auto simp: dom_def)
  qed
  with entries show ?thesis by blast
qed

text \<open>
  A run in which tasks 1 and 4 fail and the calls settle out of order satisfies the
  hypotheses of the terminality theorem.
\<close>

theorem C1_terminality_witness:
  "truthy (sourceImage photoChosen)
 \<and> returned (handleGenerateClick twoFail arrivalOrder photoChosen) = Some (Fulfilled ())
 \<and> dom (generatedImages (world (handleGenerateClick twoFail arrivalOrder photoChosen)))
     = set TIME_LABELS
 \<and> (\<exists>g. generatedImages (world (handleGenerateClick twoFail arrivalOrder photoChosen))
            ''-50 years'' = Some g
        \<and> (status g = Done \<or> status g = Error))"
proof -
  have r: "returned (handleGenerateClick twoFail arrivalOrder photoChosen) = Some (Fulfilled ())"
    by (simp add: run_facts(3) [OF photoChosen_source] arrivalOrder_def less_Suc_eq numeral_eq_Suc)
  have l: "''-50 years'' \<in> set TIME_LABELS"
    by (simp add: TIME_LABELS_eq)
  note c = C1_terminality [OF photoChosen_source r]
  from c [THEN conjunct2, THEN bspec, OF l] c [THEN conjunct1] photoChosen_source r
  show ?thesis by (intro conjI)
qed

text \<open>
  Claim C2 as stated (a single successful item has weight 1 at every cursor of the slider
  range \<open>[0, 1]\<close>) fails: when only task 2 succeeds, the cursor \<open>1/2\<close> lies in the range and
  the single image is rendered with opacity \<open>1/2\<close>.
\<close>

theorem C2_single_success_counterexample:
  "length (successfulImages
      oneSucceedsImages
      TIME_LABELS) = 1
 \<and> (0::real) \<le> 1 / 2
 \<and> 1 / 2 \<le> sliderMax
      oneSucceedsImages
      TIME_LABELS
 \<and> renderedOpacities
      oneSucceedsImages
      TIME_LABELS (1 / 2) = [1 / 2]
 \<and> renderedOpacities
      oneSucceedsImages
      TIME_LABELS (1 / 2) \<noteq> [1]"
proof -
  let ?imgs = oneSucceedsImages
  have len: "length (successfulImages ?imgs TIME_LABELS) = 1"
    by (rule oneSucceeds_length)
  have "length (renderedOpacities ?imgs TIME_LABELS (1 / 2)) = 1"
    by (simp add: renderedOpacities_length len)
  moreover have "renderedOpacities ?imgs TIME_LABELS (1 / 2) ! 0 = 1 / 2"
    by (simp add: renderedOpacities_nth len calculateOpacity_def)
  ultimately have "renderedOpacities ?imgs TIME_LABELS (1 / 2) = [1 / 2]"
    by (cases "renderedOpacities ?imgs TIME_LABELS (1 / 2)") auto
  with len show ?thesis by (simp add: sliderMax_def)
qed

text \<open>
  Claim C2, amended. When exactly one item is successful, its weight at a cursor \<open>c\<close> of
  the slider range \<open>[0, 1]\<close> is \<open>1 - c\<close>; it is 1 only at cursor 0.
\<close>

theorem C2_single_success:
  assumes "length (successfulImages images labels) = 1"
    and "0 \<le> c" and "c \<le> sliderMax images labels"
  shows "renderedOpacities images labels c = [1 - c]
       \<and> (renderedOpacities images labels c = [1]) = (c = 0)"
proof -
  from assms(1,3) have c1: "c \<le> 1" by (simp add: sliderMax_def)
  have "length (renderedOpacities images labels c) = 1"
    by (simp add: renderedOpacities_length assms(1))
  moreover have "renderedOpacities images labels c ! 0 = 1 - c"
    using assms(2) c1 by (simp add: renderedOpacities_nth assms(1) calculateOpacity_def Let_def)
  ultimately have "renderedOpacities images labels c = [1 - c]"
    by (cases "renderedOpacities images labels c") auto
  then show ?thesis by simp
qed

text \<open>
  The single-success run at cursor \<open>1/4\<close>: the weight is \<open>3/4\<close>.
\<close>

theorem C2_single_success_witness:
  "length (successfulImages
      oneSucceedsImages
      TIME_LABELS) = 1
 \<and> (0::real) \<le> 1 / 4
 \<and> 1 / 4 \<le> sliderMax
      oneSucceedsImages
      TIME_LABELS
 \<and> renderedOpacities
      oneSucceedsImages
      TIME_LABELS (1 / 4) = [3 / 4]"
proof -
  let ?imgs = oneSucceedsImages
  have len: "length (successfulImages ?imgs TIME_LABELS) = 1"
    by (rule oneSucceeds_length)
  have a: "(0::real) \<le> 1 / 4" by simp
  have b: "1 / 4 \<le> sliderMax ?imgs TIME_LABELS" by (simp add: sliderMax_def len)
  from C2_single_success [OF len a b] len a b show ?thesis by simp
qed

text \<open>
  Claim C3. For every cursor and every valid index of the successful images, the weight
  the component renders is \<open>max 0 (1 - |cursor - index|)\<close>; it is 1 when the cursor is at
  the index, 0 when the cursor is at distance 1 or more, and it always lies between 0 and 1.
\<close>

theorem C3_weight_formula:
  assumes "i < length (successfulImages images labels)"
  shows "renderedOpacities images labels c ! i = calculateOpacity (real i) c
       \<and> calculateOpacity (real i) c = max 0 (1 - \<bar>c - real i\<bar>)
       \<and> (c = real i \<longrightarrow> calculateOpacity (real i) c = 1)
       \<and> (\<bar>c - real i\<bar> \<ge> 1 \<longrightarrow> calculateOpacity (real i) c = 0)
       \<and> 0 \<le> calculateOpacity (real i) c \<and> calculateOpacity (real i) c \<le> 1"
  using assms by (auto simp: renderedOpacities_nth calculateOpacity_def Let_def)

text \<open>
  Index 1 of the four successful images of the run with two failures, at the cursors
  \<open>3/2\<close>, 1 and 2.
\<close>

theorem C3_weight_formula_witness:
  "(1::nat) < length (successfulImages
      twoFailImages
      TIME_LABELS)
 \<and> renderedOpacities
      twoFailImages
      TIME_LABELS (3 / 2) ! 1 = 1 / 2
 \<and> calculateOpacity (real 1) 1 = 1
 \<and> calculateOpacity (real 1) 2 = 0"
proof -
  let ?imgs = twoFailImages
  have v: "(1::nat) < length (successfulImages ?imgs TIME_LABELS)"
    by (simp add: twoFail_length)
  from C3_weight_formula [OF v, of "3 / 2"] C3_weight_formula [OF v, of 1]
    C3_weight_formula [OF v, of 2] v
  show ?thesis by simp
qed

text \<open>
  Claim C4 (interpolation partition). For every cursor strictly between the consecutive
  indices \<open>i\<close> and \<open>i + 1\<close>, both valid for the successful images, the weights of \<open>i\<close> and
  \<open>i + 1\<close> sum to 1 and the weight of every other index is 0.
\<close>

theorem C4_partition:
  assumes "real i < c" and "c < real i + 1"
    and "i + 1 < length (successfulImages images labels)"
  shows "renderedOpacities images labels c ! i + renderedOpacities images labels c ! (i + 1) = 1
       \<and> (\<forall>j < length (successfulImages images labels).
            j \<noteq> i \<and> j \<noteq> i + 1 \<longrightarrow> renderedOpacities images labels c ! j = 0)
       \<and> calculateOpacity (real i) c + calculateOpacity (real (i + 1)) c = 1
       \<and> (\<forall>j. j \<noteq> i \<and> j \<noteq> i + 1 \<longrightarrow> calculateOpacity (real j) c = 0)"
proof -
  have sum: "calculateOpacity (real i) c + calculateOpacity (real (i + 1)) c = 1"
    using assms(1,2) by (simp add: calculateOpacity_def Let_def)
  have zero: "calculateOpacity (real j) c = 0" if "j \<noteq> i \<and> j \<noteq> i + 1" for j
  proof (cases "j < i")
    case True
    then have "real j + 1 \<le> real i" by linarith
    with assms(1) show ?thesis by (simp add: calculateOpacity_def Let_def)
  next
    case False
    with that have "real i + 2 \<le> real j" by linarith
    with assms(2) show ?thesis by (simp add: calculateOpacity_def Let_def)
  qed
  from assms(3) have i: "i < length (successfulImages images labels)" by simp
  show ?thesis
    using sum zero renderedOpacities_nth [OF i, of c] renderedOpacities_nth [OF assms(3), of c]
    by (simp add: renderedOpacities_nth)
qed

text \<open>
  Cursor \<open>3/2\<close> over the four successful images of the run with two failures: entries
  1 and 2 share the weight, entries 0 and 3 have none.
\<close>

theorem C4_partition_witness:
  "real 1 < 3 / 2 \<and> (3 / 2 :: real) < real 1 + 1
 \<and> 1 + 1 < length (successfulImages
      twoFailImages
      TIME_LABELS)
 \<and> renderedOpacities
      twoFailImages
      TIME_LABELS (3 / 2) ! 1
    + renderedOpacities
      twoFailImages
      TIME_LABELS (3 / 2) ! (1 + 1) = 1
 \<and> renderedOpacities
      twoFailImages
      TIME_LABELS (3 / 2) ! 0 = 0
 \<and> renderedOpacities
      twoFailImages
      TIME_LABELS (3 / 2) ! 3 = 0"
proof -
  let ?imgs = twoFailImages
  have a: "real 1 < 3 / 2" and b: "(3 / 2 :: real) < real 1 + 1"
    and v: "1 + 1 < length (successfulImages ?imgs TIME_LABELS)"
    by (simp_all add: twoFail_length)
  from C4_partition [OF a b v] a b v show ?thesis
    by (simp add: twoFail_length)
qed

text \<open>
  Claim C5 (frame and isolation). When the service call of a task settles, only the entry
  of its own label changes: success stores status done with the artifact, failure stores
  status error with the failure message, and the entry of every other label stays as it
  was. Consequently the entry that a settled task leaves depends on its own outcome only:
  two runs that give task \<open>k\<close> the same outcome leave the same entry for its label, whatever
  the other tasks do and in whatever order they settle.
\<close>

theorem C5_isolation:
  "(\<forall>l. l \<noteq> label \<longrightarrow>
       generatedImages (snd (settleGeneration label outcome w)) l = generatedImages w l)
 \<and> (\<forall>newImageUrl. outcome = Fulfilled newImageUrl \<longrightarrow>
       generatedImages (snd (settleGeneration label outcome w)) label =
         Some \<lparr> status = Done, url = Some newImageUrl, error = None \<rparr>)
 \<and> (\<forall>message. outcome = Rejected (ErrorObject message) \<longrightarrow>
       generatedImages (snd (settleGeneration label outcome w)) label =
         Some \<lparr> status = Error, url = None, error = Some message \<rparr>)
 \<and> (outcome = Rejected NonError \<longrightarrow>
       generatedImages (snd (settleGeneration label outcome w)) label =
         Some \<lparr> status = Error, url = None, error = Some ''Generation failed.'' \<rparr>)
 \<and> (truthy (sourceImage w1) \<and> truthy (sourceImage w2) \<and> k < length TIME_LABELS
      \<and> k \<in> set schedule1 \<and> k \<in> set schedule2 \<and> outcome1 k = outcome2 k \<longrightarrow>
       generatedImages (world (handleGenerateClick outcome1 schedule1 w1)) (TIME_LABELS ! k) =
         generatedImages (world (handleGenerateClick outcome2 schedule2 w2)) (TIME_LABELS ! k)
     \<and> generatedImages (world (handleGenerateClick outcome1 schedule1 w1)) (TIME_LABELS ! k) =
         Some (entryOf (outcome1 k)))"
proof -
  have frame: "\<forall>l. l \<noteq> label \<longrightarrow>
       generatedImages (snd (settleGeneration label outcome w)) l = generatedImages w l"
    by (simp add: settleGeneration_images)
  have ok: "\<forall>newImageUrl. outcome = Fulfilled newImageUrl \<longrightarrow>
       generatedImages (snd (settleGeneration label outcome w)) label =
         Some \<lparr> status = Done, url = Some newImageUrl, error = None \<rparr>"
    by (simp add: settleGeneration_images entryOf_def)
  have err: "\<forall>message. outcome = Rejected (ErrorObject message) \<longrightarrow>
       generatedImages (snd (settleGeneration label outcome w)) label =
         Some \<lparr> status = Error, url = None, error = Some message \<rparr>"
    by (simp add: settleGeneration_images entryOf_def)
  have other: "outcome = Rejected NonError \<longrightarrow>
       generatedImages (snd (settleGeneration label outcome w)) label =
         Some \<lparr> status = Error, url = None, error = Some ''Generation failed.'' \<rparr>"
    by (simp add: settleGeneration_images entryOf_def)
  have runs: "truthy (sourceImage w1) \<and> truthy (sourceImage w2) \<and> k < length TIME_LABELS
      \<and> k \<in> set schedule1 \<and> k \<in> set schedule2 \<and> outcome1 k = outcome2 k \<longrightarrow>
       generatedImages (world (handleGenerateClick outcome1 schedule1 w1)) (TIME_LABELS ! k) =
         generatedImages (world (handleGenerateClick outcome2 schedule2 w2)) (TIME_LABELS ! k)
     \<and> generatedImages (world (handleGenerateClick outcome1 schedule1 w1)) (TIME_LABELS ! k) =
         Some (entryOf (outcome1 k))"
  proof (intro impI, elim conjE)
    assume h: "truthy (sourceImage w1)" "truthy (sourceImage w2)" "k < length TIME_LABELS"
      "k \<in> set schedule1" "k \<in> set schedule2" "outcome1 k = outcome2 k"
    from h(3) have k: "k < 6" by (simp add: length_TIME_LABELS)
    from run_facts(4) [OF h(1) k, of outcome1 schedule1]
      run_facts(4) [OF h(2) k, of outcome2 schedule2] h(4,5,6)
    show "generatedImages (world (handleGenerateClick outcome1 schedule1 w1)) (TIME_LABELS ! k) =
         generatedImages (world (handleGenerateClick outcome2 schedule2 w2)) (TIME_LABELS ! k)
     \<and> generatedImages (world (handleGenerateClick outcome1 schedule1 w1)) (TIME_LABELS ! k) =
         Some (entryOf (outcome1 k))"
      by simp
  qed
  from frame ok err other runs show ?thesis by (intro conjI)
qed

text \<open>
  The frame property on a fresh batch for the label of task 1, and two runs that agree on
  task 2 only: in the second one every other task fails.
\<close>

theorem C5_isolation_witness:
  "''+25 years'' \<noteq> ''-50 years''
 \<and> generatedImages (snd (settleGeneration ''-50 years'' (Rejected (ErrorObject ''quota exceeded''))
      (setGeneratedImages (\<lambda>_. initialImages) photoChosen))) ''+25 years''
     = Some pendingEntry
 \<and> generatedImages (snd (settleGeneration ''-50 years'' (Rejected (ErrorObject ''quota exceeded''))
      (setGeneratedImages (\<lambda>_. initialImages) photoChosen))) ''-50 years''
     = Some \<lparr> status = Error, url = None, error = Some ''quota exceeded'' \<rparr>
 \<and> generatedImages (snd (settleGeneration ''-50 years'' (Fulfilled ''data:image/png;base64,BB=='')
      (setGeneratedImages (\<lambda>_. initialImages) photoChosen))) ''-50 years''
     = Some \<lparr> status = Done, url = Some ''data:image/png;base64,BB=='', error = None \<rparr>
 \<and> generatedImages (snd (settleGeneration ''-50 years'' (Rejected NonError)
      (setGeneratedImages (\<lambda>_. initialImages) photoChosen))) ''-50 years''
     = Some \<lparr> status = Error, url = None, error = Some ''Generation failed.'' \<rparr>
 \<and> truthy (sourceImage photoChosen) \<and> 2 < length TIME_LABELS
 \<and> 2 \<in> set arrivalOrder \<and> 2 \<in> set reverseOrder \<and> twoFail 2 = (\<lambda>j. if j = 2 then twoFail 2 else allFail j) 2
 \<and> generatedImages (world (handleGenerateClick twoFail arrivalOrder photoChosen)) (TIME_LABELS ! 2)
     = generatedImages (world (handleGenerateClick (\<lambda>j. if j = 2 then twoFail 2 else allFail j)
         reverseOrder photoChosen)) (TIME_LABELS ! 2)
 \<and> generatedImages (world (handleGenerateClick twoFail arrivalOrder photoChosen)) (TIME_LABELS ! 2)
     = Some \<lparr> status = Done, url = Some ''data:image/png;base64,BB=='', error = None \<rparr>"
proof -
  let ?w = "setGeneratedImages (\<lambda>_. initialImages) photoChosen"
  have ne: "''+25 years'' \<noteq> ''-50 years''" by simp
  have init: "generatedImages ?w ''+25 years'' = Some pendingEntry"
    by (simp add: setGeneratedImages_def initialImages_apply TIME_LABELS_eq)
  have hyp: "truthy (sourceImage photoChosen) \<and> truthy (sourceImage photoChosen)
      \<and> 2 < length TIME_LABELS \<and> 2 \<in> set arrivalOrder \<and> 2 \<in> set reverseOrder
      \<and> twoFail 2 = (\<lambda>j. if j = 2 then twoFail 2 else allFail j) 2"
    by (simp add: photoChosen_source length_TIME_LABELS arrivalOrder_def reverseOrder_def)
  note rejected = C5_isolation [of "''-50 years''" "Rejected (ErrorObject ''quota exceeded'')" ?w
      photoChosen photoChosen 2 arrivalOrder reverseOrder twoFail
      "\<lambda>j. if j = 2 then twoFail 2 else allFail j"]
  note fulfilled = C5_isolation [of "''-50 years''" "Fulfilled ''data:image/png;base64,BB==''" ?w]
  note nonError = C5_isolation [of "''-50 years''" "Rejected NonError" ?w]
  have 1: "generatedImages (snd (settleGeneration ''-50 years''
             (Rejected (ErrorObject ''quota exceeded'')) ?w)) ''+25 years'' = Some pendingEntry"
    using rejected [THEN conjunct1, rule_format, OF ne] init by simp
  have 2: "generatedImages (snd (settleGeneration ''-50 years''
             (Rejected (ErrorObject ''quota exceeded'')) ?w)) ''-50 years''
           = Some \<lparr> status = Error, url = None, error = Some ''quota exceeded'' \<rparr>"
    using rejected [THEN conjunct2, THEN conjunct2, THEN conjunct1, rule_format, OF refl] .
  have 3: "generatedImages (snd (settleGeneration ''-50 years''
             (Fulfilled ''data:image/png;base64,BB=='') ?w)) ''-50 years''
           = Some \<lparr> status = Done, url = Some ''data:image/png;base64,BB=='', error = None \<rparr>"
    using fulfilled [THEN conjunct2, THEN conjunct1, rule_format, OF refl] .
  have 4: "generatedImages (snd (settleGeneration ''-50 years'' (Rejected NonError) ?w))
             ''-50 years''
           = Some \<lparr> status = Error, url = None, error = Some ''Generation failed.'' \<rparr>"
    using nonError [THEN conjunct2, THEN conjunct2, THEN conjunct2, THEN conjunct1, rule_format,
        OF refl] .
  have 5: "generatedImages (world (handleGenerateClick twoFail arrivalOrder photoChosen))
             (TIME_LABELS ! 2)
           = generatedImages (world (handleGenerateClick
               (\<lambda>j. if j = 2 then twoFail 2 else allFail j) reverseOrder photoChosen))
               (TIME_LABELS ! 2)
         \<and> generatedImages (world (handleGenerateClick twoFail arrivalOrder photoChosen))
             (TIME_LABELS ! 2) = Some (entryOf (twoFail 2))"
    using rejected [THEN conjunct2, THEN conjunct2, THEN conjunct2, THEN conjunct2, rule_format,
        OF hyp] .
  have 6: "entryOf (twoFail 2)
           = \<lparr> status = Done, url = Some ''data:image/png;base64,BB=='', error = None \<rparr>"
    by (simp add: entryOf_def twoFail_def)
  from 5 [THEN conjunct2] 6 have 7: "generatedImages (world (handleGenerateClick twoFail arrivalOrder photoChosen))
             (TIME_LABELS ! 2)
           = Some \<lparr> status = Done, url = Some ''data:image/png;base64,BB=='', error = None \<rparr>"
    by simp
  from 5 have 8: "generatedImages (world (handleGenerateClick twoFail arrivalOrder photoChosen))
             (TIME_LABELS ! 2)
           = generatedImages (world (handleGenerateClick
               (\<lambda>j. if j = 2 then twoFail 2 else allFail j) reverseOrder photoChosen))
               (TIME_LABELS ! 2)"
    by (rule conjunct1)
  show ?thesis
    by (intro conjI ne 1 2 3 4 7 8 hyp [THEN conjunct1]
        hyp [THEN conjunct2, THEN conjunct2, THEN conjunct1]
        hyp [THEN conjunct2, THEN conjunct2, THEN conjunct2, THEN conjunct1]
        hyp [THEN conjunct2, THEN conjunct2, THEN conjunct2, THEN conjunct2, THEN conjunct1]
        hyp [THEN conjunct2, THEN conjunct2, THEN conjunct2, THEN conjunct2, THEN conjunct2])
qed

text \<open>
  Claim C6 (settle all, never raise). The promise of the handler is never rejected,
  whatever the tasks do; it is fulfilled once every task has settled, also when all of them
  fail; it is not settled before every task has settled; and every task that has settled has
  a fulfilled generation promise and its own entry, whether its siblings failed or not.
\<close>

theorem C6_settle_all:
  "returned (handleGenerateClick outcome schedule w) \<noteq> Some (Rejected r)
 \<and> ((\<forall>k < length TIME_SHIFTS. k \<in> set schedule) \<longrightarrow>
       returned (handleGenerateClick outcome schedule w) = Some (Fulfilled ()))
 \<and> (truthy (sourceImage w) \<and> returned (handleGenerateClick outcome schedule w) \<noteq> None \<longrightarrow>
       (\<forall>k < length TIME_SHIFTS. k \<in> set schedule))
 \<and> (truthy (sourceImage w) \<and> k < length TIME_SHIFTS \<and> k \<in> set schedule \<longrightarrow>
       generationPromises (handleGenerateClick outcome schedule w) ! k = Some (Fulfilled ())
     \<and> generatedImages (world (handleGenerateClick outcome schedule w)) (TIME_LABELS ! k) =
         Some (entryOf (outcome k)))"
proof (cases "truthy (sourceImage w)")
  case True
  show ?thesis
    using run_facts(2) [OF True, of k outcome schedule] run_facts(4) [OF True, of k outcome schedule]
    by (simp add: run_facts(3) [OF True] length_TIME_SHIFTS)
next
  case False
  then show ?thesis by (simp add: no_source)
qed

text \<open>
  A run in which every task fails: the handler resolves normally and task 4 has left its
  error entry.
\<close>

theorem C6_settle_all_witness:
  "truthy (sourceImage photoChosen)
 \<and> returned (handleGenerateClick allFail arrivalOrder photoChosen) = Some (Fulfilled ())
 \<and> returned (handleGenerateClick allFail arrivalOrder photoChosen) \<noteq> None
 \<and> 4 < length TIME_SHIFTS \<and> 4 \<in> set arrivalOrder
 \<and> generationPromises (handleGenerateClick allFail arrivalOrder photoChosen) ! 4
     = Some (Fulfilled ())
 \<and> generatedImages (world (handleGenerateClick allFail arrivalOrder photoChosen)) (TIME_LABELS ! 4)
     = Some \<lparr> status = Error, url = None, error = Some ''network error'' \<rparr>"
proof -
  have a: "\<forall>k < length TIME_SHIFTS. k \<in> set arrivalOrder"
    using arrivalOrder_complete by (simp add: length_TIME_SHIFTS)
  have b: "4 < length TIME_SHIFTS \<and> 4 \<in> set arrivalOrder"
    by (simp add: length_TIME_SHIFTS arrivalOrder_def)
  from C6_settle_all [of allFail arrivalOrder photoChosen _ 4] a b photoChosen_source
  show ?thesis by (simp add: entryOf_def allFail_def)
qed

text \<open>
  Claim C7 as stated (the successful images are exactly the labels whose status is done)
  fails: when the service resolves task 0 with the empty string, the label of task 0 has
  status done and is not among the successful images, because the component also requires a
  non-empty url.
\<close>

theorem C7_order_counterexample:
  "map slideLabel (successfulImages
      (generatedImages (world (handleGenerateClick emptyFirst arrivalOrder photoChosen)))
      TIME_LABELS)
     = [''-50 years'', ''-25 years'', ''+25 years'', ''+50 years'', ''+75 years'']
 \<and> doneLabels
      (generatedImages (world (handleGenerateClick emptyFirst arrivalOrder photoChosen)))
      TIME_LABELS
     = [''-75 years'', ''-50 years'', ''-25 years'', ''+25 years'', ''+50 years'', ''+75 years'']
 \<and> map slideLabel (successfulImages
      (generatedImages (world (handleGenerateClick emptyFirst arrivalOrder photoChosen)))
      TIME_LABELS)
     \<noteq> doneLabels
      (generatedImages (world (handleGenerateClick emptyFirst arrivalOrder photoChosen)))
      TIME_LABELS"
proof -
  let ?imgs = "generatedImages (world (handleGenerateClick emptyFirst arrivalOrder photoChosen))"
  have a: "map slideLabel (successfulImages ?imgs TIME_LABELS)
     = [''-50 years'', ''-25 years'', ''+25 years'', ''+50 years'', ''+75 years'']"
    by (simp add: example_eval run_images_literal [OF photoChosen_source] emptyFirst_def
          arrivalOrder_def)
  have b: "doneLabels ?imgs TIME_LABELS
     = [''-75 years'', ''-50 years'', ''-25 years'', ''+25 years'', ''+50 years'', ''+75 years'']"
    by (simp add: doneLabels_def example_eval run_images_literal [OF photoChosen_source]
          emptyFirst_def arrivalOrder_def)
  from a b show ?thesis by simp
qed

text \<open>
  Claim C7, amended. The successful images are exactly the label sequence restricted to
  the labels whose status is done and whose url is present and non-empty, in the original
  label order; when every done entry of the labels has a non-empty url, this is the
  restriction to the labels whose status is done. The sequence does not depend on the order
  in which the tasks completed.
\<close>

theorem C7_order_preserved:
  "map slideLabel (successfulImages images labels) =
     filter (\<lambda>label. case images label of None \<Rightarrow> False
                      | Some g \<Rightarrow> status g = Done \<and> truthy (url g)) labels
 \<and> ((\<forall>label \<in> set labels. \<forall>g. images label = Some g \<and> status g = Done \<longrightarrow> truthy (url g)) \<longrightarrow>
       map slideLabel (successfulImages images labels) = doneLabels images labels)
 \<and> (truthy (sourceImage w) \<and> set schedule1 = set schedule2 \<longrightarrow>
       successfulImages (generatedImages (world (handleGenerateClick outcome schedule1 w)))
         TIME_LABELS
       = successfulImages (generatedImages (world (handleGenerateClick outcome schedule2 w)))
         TIME_LABELS)"
proof -
  have a: "(\<forall>label \<in> set labels. \<forall>g. images label = Some g \<and> status g = Done \<longrightarrow> truthy (url g)) \<longrightarrow>
       map slideLabel (successfulImages images labels) = doneLabels images labels"
  proof
    assume h: "\<forall>label \<in> set labels. \<forall>g. images label = Some g \<and> status g = Done \<longrightarrow> truthy (url g)"
    have "filter (\<lambda>label. case images label of None \<Rightarrow> False
                      | Some g \<Rightarrow> status g = Done \<and> truthy (url g)) labels
        = filter (\<lambda>label. case images label of None \<Rightarrow> False | Some g \<Rightarrow> status g = Done) labels"
      using h by (intro filter_cong) (auto split: option.splits)
    then show "map slideLabel (successfulImages images labels) = doneLabels images labels"
      by (simp add: successfulImages_labels doneLabels_def)
  qed
  have b: "truthy (sourceImage w) \<and> set schedule1 = set schedule2 \<longrightarrow>
       successfulImages (generatedImages (world (handleGenerateClick outcome schedule1 w)))
         TIME_LABELS
       = successfulImages (generatedImages (world (handleGenerateClick outcome schedule2 w)))
         TIME_LABELS"
  proof (intro impI, elim conjE)
    assume t: "truthy (sourceImage w)" and s: "set schedule1 = set schedule2"
    show "successfulImages (generatedImages (world (handleGenerateClick outcome schedule1 w)))
         TIME_LABELS
       = successfulImages (generatedImages (world (handleGenerateClick outcome schedule2 w)))
         TIME_LABELS"
    proof (rule successfulImages_cong)
      fix l assume "l \<in> set TIME_LABELS"
      then obtain k where k: "k < 6" "l = TIME_LABELS ! k" using in_TIME_LABELS by blast
      from run_facts(4) [OF t k(1), of outcome schedule1]
        run_facts(4) [OF t k(1), of outcome schedule2] s k(2)
      show "generatedImages (world (handleGenerateClick outcome schedule1 w)) l
          = generatedImages (world (handleGenerateClick outcome schedule2 w)) l"
        by simp
    qed
  qed
  from successfulImages_labels [of images labels] a b show ?thesis by (intro conjI)
qed

text \<open>
  The run with two failures: the successful images are the four done labels in label
  order, for both arrival orders.
\<close>

theorem C7_order_preserved_witness:
  "map slideLabel (successfulImages twoFailImages TIME_LABELS) = doneLabels twoFailImages TIME_LABELS
 \<and> doneLabels twoFailImages TIME_LABELS = [''-75 years'', ''-25 years'', ''+25 years'', ''+75 years'']
 \<and> truthy (sourceImage photoChosen) \<and> set arrivalOrder = set reverseOrder
 \<and> successfulImages (generatedImages (world (handleGenerateClick twoFail arrivalOrder photoChosen)))
      TIME_LABELS
    = successfulImages (generatedImages (world (handleGenerateClick twoFail reverseOrder photoChosen)))
      TIME_LABELS"
proof -
  have h: "\<forall>label \<in> set TIME_LABELS. \<forall>g.
             twoFailImages label = Some g \<and> status g = Done \<longrightarrow> truthy (url g)"
    by (simp add: example_eval twoFailImages_def run_images_literal [OF photoChosen_source]
          twoFail_def arrivalOrder_def)
  have s: "set arrivalOrder = set reverseOrder"
    by (auto simp: arrivalOrder_def reverseOrder_def)
  note c = C7_order_preserved [of twoFailImages TIME_LABELS photoChosen arrivalOrder reverseOrder
      twoFail]
  have 1: "map slideLabel (successfulImages twoFailImages TIME_LABELS)
           = doneLabels twoFailImages TIME_LABELS"
    using c [THEN conjunct2, THEN conjunct1, THEN mp, OF h] .
  have 2: "successfulImages (generatedImages (world (handleGenerateClick twoFail arrivalOrder
              photoChosen))) TIME_LABELS
         = successfulImages (generatedImages (world (handleGenerateClick twoFail reverseOrder
              photoChosen))) TIME_LABELS"
    using c [THEN conjunct2, THEN conjunct2, THEN mp, OF conjI [OF photoChosen_source s]] .
  have 3: "doneLabels twoFailImages TIME_LABELS
           = [''-75 years'', ''-25 years'', ''+25 years'', ''+75 years'']"
    using 1 twoFail_labels by simp
  show ?thesis by (intro conjI 1 2 3 photoChosen_source s)
qed

text \<open>
  Claim C8 (item invariant). In every state the component reaches, each entry of the batch
  mapping has neither url nor error while it is pending, and exactly one of them otherwise:
  the url exactly when the status is done, the error exactly when the status is error.
\<close>

theorem C8_item_invariant:
  assumes "generatedImages (run_events evs) label = Some g"
  shows "(status g = Pending \<longrightarrow> url g = None \<and> error g = None)
       \<and> (status g \<noteq> Pending \<longrightarrow> (url g \<noteq> None) \<noteq> (error g \<noteq> None))
       \<and> ((url g \<noteq> None) = (status g = Done))
       \<and> ((error g \<noteq> None) = (status g = Error))"
  using itemInvariant_run_events [of evs] assms unfolding itemInvariant_def by blast

text \<open>
  After a photo is chosen and the calls of tasks 3 and 1 have settled, the entry of task 1
  is an error entry.
\<close>

theorem C8_item_invariant_witness:
  "generatedImages
     (run_events [ImageChosen ''data:image/jpeg;base64,AA=='', GenerateClick twoFail [3, 1]])
     ''-50 years''
   = Some \<lparr> status = Error, url = None, error = Some ''quota exceeded'' \<rparr>
 \<and> (url \<lparr> status = Error, url = None, error = Some ''quota exceeded'' \<rparr> \<noteq> None)
   = (status \<lparr> status = Error, url = None, error = Some ''quota exceeded'' \<rparr> = Done)
 \<and> (error \<lparr> status = Error, url = None, error = Some ''quota exceeded'' \<rparr> \<noteq> None)
   = (status \<lparr> status = Error, url = None, error = Some ''quota exceeded'' \<rparr> = Error)"
proof -
  have r: "run_events [ImageChosen ''data:image/jpeg;base64,AA=='', GenerateClick twoFail [3, 1]]
           = world (handleGenerateClick twoFail [3, 1] photoChosen)"
    by (simp add: run_events_def photoChosen_def)
  have g: "generatedImages
     (run_events [ImageChosen ''data:image/jpeg;base64,AA=='', GenerateClick twoFail [3, 1]])
     ''-50 years''
   = Some \<lparr> status = Error, url = None, error = Some ''quota exceeded'' \<rparr>"
    unfolding r
    by (simp add: run_images_literal [OF photoChosen_source] entryOf_def twoFail_def)
  note c = C8_item_invariant [OF g]
  from g c [THEN conjunct2, THEN conjunct2, THEN conjunct1]
    c [THEN conjunct2, THEN conjunct2, THEN conjunct2]
  show ?thesis by (intro conjI)
qed

text \<open>
  Claim C9 as stated (a call without a source image reports a failure to its caller)
  fails: without a source image the promise of the handler is fulfilled and nothing is
  written to the console.
\<close>

theorem C9_no_source_counterexample:
  "\<not> truthy (sourceImage initialWorld)
 \<and> returned (handleGenerateClick twoFail arrivalOrder initialWorld) = Some (Fulfilled ())
 \<and> console (world (handleGenerateClick twoFail arrivalOrder initialWorld)) = console initialWorld
 \<and> \<not> failureReported initialWorld (handleGenerateClick twoFail arrivalOrder initialWorld)"
  by (simp add: handleGenerateClick_def failureReported_def initialWorld_def truthy_def)

text \<open>
  Claim C9, amended. A call with an absent or empty source image returns at once, before
  any task starts: its promise is fulfilled and nothing is reported, no partial batch is
  created (the world, and so the batch mapping, is left unchanged) and no generation call is
  issued.
\<close>

theorem C9_no_source:
  assumes "\<not> truthy (sourceImage w)"
  shows "handleGenerateClick outcome schedule w =
           \<lparr> world = w, generationPromises = [], returned = Some (Fulfilled ()) \<rparr>
       \<and> generatedImages (world (handleGenerateClick outcome schedule w)) = generatedImages w
       \<and> requests (world (handleGenerateClick outcome schedule w)) = requests w
       \<and> appState (world (handleGenerateClick outcome schedule w)) = appState w
       \<and> \<not> failureReported w (handleGenerateClick outcome schedule w)"
  using assms by (simp add: handleGenerateClick_def failureReported_def)

text \<open>
  A world whose source image is the empty string.
\<close>

theorem C9_no_source_witness:
  "\<not> truthy (sourceImage (setSourceImage (Some []) photoChosen))
 \<and> handleGenerateClick twoFail arrivalOrder (setSourceImage (Some []) photoChosen) =
      \<lparr> world = setSourceImage (Some []) photoChosen, generationPromises = [],
        returned = Some (Fulfilled ()) \<rparr>
 \<and> requests (world (handleGenerateClick twoFail arrivalOrder (setSourceImage (Some []) photoChosen)))
    = []"
proof -
  have h: "\<not> truthy (sourceImage (setSourceImage (Some []) photoChosen))"
    by (simp add: setSourceImage_def truthy_def)
  have r: "requests (setSourceImage (Some []) photoChosen) = []"
    by (simp add: setSourceImage_def photoChosen_def setAppState_def initialWorld_def)
  from C9_no_source [OF h, of twoFail arrivalOrder] h r show ?thesis by simp
qed

text \<open>
  Claim C10. The weight computation has no failing path, and for every real cursor and
  every index, integer or not, inside or outside the range of the successful images, its
  value lies between 0 and 1.
\<close>

theorem C10_weight_total:
  "0 \<le> calculateOpacity index c \<and> calculateOpacity index c \<le> 1
 \<and> 0 \<le> calculateOpacity (of_int i) c \<and> calculateOpacity (of_int i) c \<le> 1"
  by (simp add: calculateOpacity_def Let_def)

end
